theory Spec2Isabelle
  imports Main "HOL-Library.Sublist"
begin

section \<open>Strings and the library functions the script calls\<close>

text \<open>
  The script is Python; its strings are sequences of code points. The model uses HOL's
  \<open>string\<close>, whose characters are the code points 0 to 255, and gives the library
  functions the script calls (\<open>str.lower\<close>, \<open>str.strip\<close>, the regular expression class
  \<open>\s\<close>) their value on these code points.
\<close>

definition code :: "char \<Rightarrow> nat" where
  "code c = of_char c"

text \<open>\<open>str.isspace\<close>, which is also the class \<open>\s\<close> of \<open>re\<close> and what \<open>str.strip()\<close> removes.\<close>

definition is_space :: "char \<Rightarrow> bool" where
  "is_space c =
     ((9 \<le> code c \<and> code c \<le> 13) \<or> (28 \<le> code c \<and> code c \<le> 32)
      \<or> code c = 133 \<or> code c = 160)"

text \<open>\<open>str.lower\<close>: the letters A to Z and the capital letters of the upper half.\<close>

definition lower_char :: "char \<Rightarrow> char" where
  "lower_char c =
     (if (65 \<le> code c \<and> code c \<le> 90) \<or> (192 \<le> code c \<and> code c \<le> 222 \<and> code c \<noteq> 215)
      then char_of (code c + 32) else c)"

definition lower :: "string \<Rightarrow> string" where
  "lower s = map lower_char s"

text \<open>\<open>s.strip(chars)\<close> with the set of characters given as a predicate.\<close>

definition strip_where :: "(char \<Rightarrow> bool) \<Rightarrow> string \<Rightarrow> string" where
  "strip_where p s = rev (dropWhile p (rev (dropWhile p s)))"

definition strip :: "string \<Rightarrow> string" where
  "strip s = strip_where is_space s"

section \<open>sanitize\_for\_docker\<close>

text \<open>\<open>re.sub(r'\s+', '_', name)\<close>: every maximal run of white space becomes one underscore.\<close>

function sub_spaces :: "string \<Rightarrow> string" where
  "sub_spaces [] = []"
| "sub_spaces (c # cs) =
     (if is_space c then CHR ''_'' # sub_spaces (dropWhile is_space cs)
      else c # sub_spaces cs)"
  by pat_completeness auto
termination
  by (relation "measure length") (auto simp: less_Suc_eq_le length_dropWhile_le)

text \<open>The class \<open>[a-z0-9_-]\<close>; \<open>re.sub(r'[^a-z0-9_-]', '', name)\<close> keeps its members.\<close>

definition safe_char :: "char \<Rightarrow> bool" where
  "safe_char c =
     ((97 \<le> code c \<and> code c \<le> 122) \<or> (48 \<le> code c \<and> code c \<le> 57)
      \<or> c = CHR ''_'' \<or> c = CHR ''-'')"

definition sub_unsafe :: "string \<Rightarrow> string" where
  "sub_unsafe s = filter safe_char s"

definition dash_or_underscore :: "char \<Rightarrow> bool" where
  "dash_or_underscore c = (c = CHR ''_'' \<or> c = CHR ''-'')"

text \<open>The value of \<open>name\<close> after \<open>name.strip('_-')\<close>.\<close>

definition sanitize_stripped :: "string \<Rightarrow> string" where
  "sanitize_stripped name = strip_where dash_or_underscore (sub_unsafe (sub_spaces (lower name)))"

text \<open>The value of \<open>name\<close> just before the \<open>return\<close>.\<close>

definition sanitize_prefixed :: "string \<Rightarrow> string" where
  "sanitize_prefixed name =
     (let n = sanitize_stripped name
      in if n = [] \<or> hd n = CHR ''-'' \<or> hd n = CHR ''_'' then ''proj'' @ n else n)"

definition sanitize_for_docker :: "string \<Rightarrow> string" where
  "sanitize_for_docker name =
     (let n = sanitize_prefixed name in if n \<noteq> [] then n else ''default_proj'')"

subsection \<open>The sanitizer as the specification words it\<close>

text \<open>
  A second definition, written from the specification's sentence and not from the code:
  lower-case the input; collapse runs of white space to a single underscore; strip every
  character outside \<open>[a-z0-9_-]\<close>; trim leading and trailing \<open>_\<close> and \<open>-\<close>; if the
  result is empty or starts with \<open>-\<close> or \<open>_\<close>, prefix it with \<open>proj\<close>; if it is still
  empty, return \<open>default_proj\<close>. It is compared with \<open>sanitize_for_docker\<close> below.
\<close>

text \<open>Collapsing runs: the flag says that the previous character was white space.\<close>

fun spec_collapse :: "bool \<Rightarrow> string \<Rightarrow> string" where
  "spec_collapse in_run [] = []"
| "spec_collapse in_run (c # cs) =
     (if is_space c then (if in_run then spec_collapse True cs else CHR ''_'' # spec_collapse True cs)
      else c # spec_collapse False cs)"

definition spec_trim_end :: "(char \<Rightarrow> bool) \<Rightarrow> string \<Rightarrow> string" where
  "spec_trim_end p s = foldr (\<lambda>c acc. if acc = [] \<and> p c then [] else c # acc) s []"

definition spec_trim :: "(char \<Rightarrow> bool) \<Rightarrow> string \<Rightarrow> string" where
  "spec_trim p s = spec_trim_end p (dropWhile p s)"

definition spec_sanitize :: "string \<Rightarrow> string" where
  "spec_sanitize s =
     (let trimmed = spec_trim dash_or_underscore (filter safe_char (spec_collapse False (map lower_char s)));
          prefixed = (case trimmed of
                        [] \<Rightarrow> ''proj''
                      | c # _ \<Rightarrow> if dash_or_underscore c then ''proj'' @ trimmed else trimmed)
      in if prefixed = [] then ''default_proj'' else prefixed)"

text \<open>A match of \<open>^[a-z0-9_-]+$\<close>: at least one character, all of them in the class.\<close>

definition matches_safe :: "string \<Rightarrow> bool" where
  "matches_safe s = (s \<noteq> [] \<and> list_all safe_char s)"

text \<open>The class \<open>[a-z0-9]\<close>.\<close>

definition alnum_char :: "char \<Rightarrow> bool" where
  "alnum_char c = ((97 \<le> code c \<and> code c \<le> 122) \<or> (48 \<le> code c \<and> code c \<le> 57))"

section \<open>The prompt loops of main\<close>

text \<open>
  \<open>input(prompt)\<close> prints the prompt and returns the next line typed, without its line end.
  The lines the operator will type are a list; when the list is used up \<open>input\<close> raises
  \<open>EOFError\<close>, which \<open>main\<close> does not catch, so the loop gives \<open>None\<close>. A loop returns what
  it printed, and the accepted value with the lines left over.
\<close>

text \<open>Python's \<open>a or b\<close> on strings: \<open>a\<close> unless it is empty.\<close>

definition py_or :: "string \<Rightarrow> string \<Rightarrow> string" where
  "py_or a b = (if a \<noteq> [] then a else b)"

definition DEFAULT_SPLUNK_PORT :: string where
  "DEFAULT_SPLUNK_PORT = ''9997''"

definition apostrophe :: string where
  "apostrophe = [CHR 0x27]"

subsection \<open>Step 3: the indexer host\<close>

definition host_prompt :: "string \<Rightarrow> string" where
  "host_prompt last_ip =
     ''Enter Splunk Indexer IP or hostname'' @
     (if last_ip \<noteq> [] then '' (Default: '' @ apostrophe @ last_ip @ apostrophe @ ''): ''
      else '': '')"

definition host_hint :: string where
  "host_hint = ''(Hint: Use 'ipconfig'/'ip addr' on VM or run gather_vm_info.ps1 there.)''"

text \<open>The string the checks of one round look at: the stripped line, or the saved host.\<close>

definition host_candidate :: "string \<Rightarrow> string \<Rightarrow> string" where
  "host_candidate last_ip line = py_or (strip line) last_ip"

text \<open>
  One round of the loop with the line typed: the new value of \<open>indexer_ip\<close> (empty when the
  round refuses the candidate) and what the round prints after the prompt.
\<close>

definition host_round :: "string \<Rightarrow> string \<Rightarrow> string \<times> string list" where
  "host_round last_ip line =
     (let indexer_ip = host_candidate last_ip line;
          (indexer_ip, out) =
             (if indexer_ip = [] then (indexer_ip, [''Indexer IP cannot be empty.''])
              else if CHR '' '' \<in> set indexer_ip \<or> CHR ''/'' \<in> set indexer_ip
                   then ([], [''Invalid characters in IP/hostname.''])
              else (indexer_ip, []))
      in (indexer_ip, if indexer_ip = [] then out @ [host_hint] else out))"

fun get_indexer_ip :: "string \<Rightarrow> string list \<Rightarrow> string list \<times> (string \<times> string list) option" where
  "get_indexer_ip last_ip [] = ([host_prompt last_ip], None)"
| "get_indexer_ip last_ip (line # lines) =
     (let (indexer_ip, out) = host_round last_ip line
      in if indexer_ip \<noteq> [] then (host_prompt last_ip # out, Some (indexer_ip, lines))
         else (let (out', r) = get_indexer_ip last_ip lines
               in (host_prompt last_ip # out @ out', r)))"

subsection \<open>Step 4: the indexer port\<close>

text \<open>
  \<open>int(s)\<close> is a parameter of the loop, \<open>to_int\<close>, with \<open>None\<close> for \<open>ValueError\<close>: what the
  interpreter accepts as an integer is not the script's decision. \<open>py_int\<close> below is the
  interpreter's \<open>int\<close> on strings of 8-bit code points: white space at both ends (the
  characters 9 to 13, 32, 133 and 160), an optional sign, and decimal digits with single
  underscores between digits; the interpreter's configurable limit on the number of
  digits is left out.
\<close>

definition is_digit :: "char \<Rightarrow> bool" where
  "is_digit c = (48 \<le> code c \<and> code c \<le> 57)"

definition digit_value :: "char \<Rightarrow> int" where
  "digit_value c = of_char c - 48"

definition int_space :: "char \<Rightarrow> bool" where
  "int_space c = ((9 \<le> code c \<and> code c \<le> 13) \<or> code c = 32 \<or> code c = 133 \<or> code c = 160)"

text \<open>The digits after the first one, with the value read so far.\<close>

fun more_digits :: "int \<Rightarrow> string \<Rightarrow> int option" where
  "more_digits acc [] = Some acc"
| "more_digits acc [c] = (if is_digit c then Some (10 * acc + digit_value c) else None)"
| "more_digits acc (c # d # cs) =
     (if is_digit c then more_digits (10 * acc + digit_value c) (d # cs)
      else if c = CHR ''_'' \<and> is_digit d then more_digits (10 * acc + digit_value d) cs
      else None)"

definition unsigned_int :: "string \<Rightarrow> int option" where
  "unsigned_int s =
     (case s of [] \<Rightarrow> None
      | c # cs \<Rightarrow> if is_digit c then more_digits (digit_value c) cs else None)"

definition py_int :: "string \<Rightarrow> int option" where
  "py_int s =
     (case strip_where int_space s of
        [] \<Rightarrow> None
      | c # cs \<Rightarrow>
          if c = CHR ''-'' then map_option uminus (unsigned_int cs)
          else if c = CHR ''+'' then unsigned_int cs
          else unsigned_int (c # cs))"

definition port_prompt :: "string \<Rightarrow> string" where
  "port_prompt last_port =
     ''Enter Splunk receiving TCP port'' @
     (if last_port \<noteq> [] then '' (Default: '' @ apostrophe @ last_port @ apostrophe @ ''): ''
      else '' (e.g., '' @ DEFAULT_SPLUNK_PORT @ ''): '')"

definition port_hint :: string where
  "port_hint = ''(Hint: Check Splunk > Settings > Forwarding & receiving > Configure receiving.)''"

definition port_candidate :: "string \<Rightarrow> string \<Rightarrow> string" where
  "port_candidate last_port line = py_or (strip line) last_port"

text \<open>The test \<open>1 <= port_num <= 65535\<close> on the result of \<open>int\<close>; \<open>None\<close> is the \<open>ValueError\<close>.\<close>

definition in_port_range :: "int option \<Rightarrow> bool" where
  "in_port_range r = (case r of None \<Rightarrow> False | Some port_num \<Rightarrow> 1 \<le> port_num \<and> port_num \<le> 65535)"

text \<open>
  One round of the loop, entered with \<open>indexer_port\<close> empty: its new value and what the
  round prints after the prompt.
\<close>

definition port_round :: "(string \<Rightarrow> int option) \<Rightarrow> string \<Rightarrow> string \<Rightarrow> string \<times> string list" where
  "port_round to_int last_port line =
     (let indexer_port_input = port_candidate last_port line;
          (indexer_port, out) =
             (case to_int indexer_port_input of
                None \<Rightarrow> ([], [''Port must be a number.''])
              | Some port_num \<Rightarrow>
                  if 1 \<le> port_num \<and> port_num \<le> 65535 then (indexer_port_input, [])
                  else ([], [''Port must be 1-65535.'']))
      in (indexer_port, if indexer_port = [] then out @ [port_hint] else out))"

fun get_indexer_port ::
  "(string \<Rightarrow> int option) \<Rightarrow> string \<Rightarrow> string list \<Rightarrow> string list \<times> (string \<times> string list) option" where
  "get_indexer_port to_int last_port [] = ([port_prompt last_port], None)"
| "get_indexer_port to_int last_port (line # lines) =
     (let (indexer_port, out) = port_round to_int last_port line
      in if indexer_port \<noteq> [] then (port_prompt last_port # out, Some (indexer_port, lines))
         else (let (out', r) = get_indexer_port to_int last_port lines
               in (port_prompt last_port # out @ out', r)))"

section \<open>run\_command\<close>

text \<open>
  What \<open>subprocess.run\<close> meets is an input of the model: the program is not found
  (\<open>FileNotFoundError\<close>), the call fails with another exception (its text is kept), or
  the process completes with an exit code and the two captured streams. With
  \<open>check=True\<close> a completed process with a non-zero exit code is turned into
  \<open>CalledProcessError\<close> by \<open>subprocess.run\<close> itself.
\<close>

datatype process =
    Not_found
  | Failed_to_run string
  | Completed int string string

text \<open>What a call prints, one constructor for each \<open>print\<close> of \<open>run_command\<close>.\<close>

datatype printed =
    Running_command string "string option"
  | Output string
  | Error_Output string
  | Command_not_found string
  | Command_failed int
  | Unexpected_error string string

text \<open>A call returns, ends the script with \<open>sys.exit\<close>, or lets an exception through.\<close>

datatype 'a outcome = Returns 'a | Exits nat | Raises string

definition benign_patterns :: "string list" where
  "benign_patterns =
     [''no such container'', ''network not found'', ''removing network'',
      ''removing volume'', ''already exists'']"

text \<open>Python's \<open>pattern in text\<close> on strings.\<close>

fun py_in :: "string \<Rightarrow> string \<Rightarrow> bool" where
  "py_in pattern [] = (pattern = [])"
| "py_in pattern (c # cs) = (prefix pattern (c # cs) \<or> py_in pattern cs)"

text \<open>\<open>any(pattern in stderr_lower for pattern in benign_patterns)\<close>.\<close>

definition mentions_benign :: "string \<Rightarrow> bool" where
  "mentions_benign err = list_ex (\<lambda>pattern. py_in pattern (lower err)) benign_patterns"

text \<open>\<open>' '.join(map(str, command_list))\<close>.\<close>

fun join_spaces :: "string list \<Rightarrow> string" where
  "join_spaces [] = []"
| "join_spaces [w] = w"
| "join_spaces (w # ws) = w @ '' '' @ join_spaces ws"

text \<open>
  \<open>cwd\<close> is \<open>None\<close> or a string; \<open>if cwd\<close> holds for a non-empty string. \<open>extra_env\<close> only
  changes the environment handed to the process and is part of what \<open>process\<close> stands for.
  The branch \<open>return False\<close> of the handler of \<open>CalledProcessError\<close> is dead: the exception
  is raised only when \<open>check\<close> holds.
\<close>

definition run_command ::
  "string list \<Rightarrow> string option \<Rightarrow> bool \<Rightarrow> bool \<Rightarrow> process \<Rightarrow> printed list \<times> bool outcome" where
  "run_command command_list cwd check suppress_output proc =
     (let cmd_str = join_spaces command_list;
          banner = (if \<not> suppress_output
                    then [Running_command cmd_str (if cwd = Some [] then None else cwd)] else [])
      in case proc of
           Not_found \<Rightarrow>
             (case command_list of
                [] \<Rightarrow> (banner, Raises ''IndexError'')
              | c # _ \<Rightarrow> (banner @ [Command_not_found c], Exits 1))
         | Failed_to_run e \<Rightarrow> (banner @ [Unexpected_error cmd_str e], Exits 1)
         | Completed returncode stdout stderr \<Rightarrow>
             if check \<and> returncode \<noteq> 0 then (banner @ [Command_failed returncode], Exits 1)
             else
               (let shown_out = (if \<not> suppress_output \<and> stdout \<noteq> [] \<and> strip stdout \<noteq> []
                                 then [Output (strip stdout)] else []);
                    is_benign_error = (stderr \<noteq> [] \<and> mentions_benign stderr);
                    shown_err = (if stderr \<noteq> [] \<and> strip stderr \<noteq> [] \<and> \<not> is_benign_error
                                 then [Error_Output (strip stderr)] else [])
                in (banner @ shown_out @ shown_err, Returns (returncode = 0))))"

text \<open>The text shown as error output by a call, if any.\<close>

fun error_outputs :: "printed list \<Rightarrow> string list" where
  "error_outputs [] = []"
| "error_outputs (Error_Output t # ps) = t # error_outputs ps"
| "error_outputs (_ # ps) = error_outputs ps"

section \<open>The update of the root .gitignore\<close>

text \<open>
  The file is absent or a regular file with a text. Reading it (\<open>for line in f\<close>, text
  mode) gives its lines, where \<open>\r\n\<close>, \<open>\r\<close> and \<open>\n\<close> each end a line. The script strips
  every line, so the lines are kept here without their line end. \<open>text_lines\<close> holds the
  line read so far, reversed, in its first argument.
\<close>

datatype text_file = Absent | Regular string

definition LF :: char where "LF = CHR 0x0A"
definition CR :: char where "CR = CHR 0x0D"

fun text_lines :: "string \<Rightarrow> string \<Rightarrow> string list" where
  "text_lines cur [] = (if cur = [] then [] else [rev cur])"
| "text_lines cur [c] = (if c = CR \<or> c = LF then [rev cur] else [rev (c # cur)])"
| "text_lines cur (c # d # cs) =
     (if c = CR \<and> d = LF then rev cur # text_lines [] cs
      else if c = CR \<or> c = LF then rev cur # text_lines [] (d # cs)
      else text_lines (c # cur) (d # cs))"

text \<open>\<open>line.strip() for line in f if line.strip()\<close>, in the order of the file.\<close>

definition kept :: "string list \<Rightarrow> string list" where
  "kept ls = filter (\<lambda>l. l \<noteq> []) (map strip ls)"

definition stripped_lines :: "string \<Rightarrow> string list" where
  "stripped_lines content = kept (text_lines [] content)"

definition ignore_entry :: "string \<Rightarrow> string" where
  "ignore_entry project_name_sanitized = ''/'' @ project_name_sanitized @ ''/''"

text \<open>The text written by \<open>f.write\<close>; the file is opened with \<open>newline='\n'\<close>.\<close>

definition ignore_comment :: "string \<Rightarrow> string" where
  "ignore_comment project_name_sanitized =
     ''# Ignore generated instance '' @ apostrophe @ project_name_sanitized @ apostrophe"

definition ignore_block :: "string \<Rightarrow> string" where
  "ignore_block project_name_sanitized =
     [LF] @ ignore_comment project_name_sanitized @ [LF]
     @ ignore_entry project_name_sanitized @ [LF]"

datatype gitignore_note = Adding string | Could_not_update

text \<open>
  \<open>instance_dir\<close> is \<open>parent_dir / project_name_sanitized\<close>, so \<open>relative_to\<close> gives the
  sanitized name and never raises, and \<open>parent_dir\<close> is a \<open>Path\<close>. The two flags say
  whether reading the file and opening it for appending succeed; a failure is the
  \<open>IOError\<close> (or, for bytes that are not UTF-8, the \<open>ValueError\<close>) that the script
  answers with a warning. Appending to an absent file creates it.
\<close>

definition update_gitignore ::
  "bool \<Rightarrow> bool \<Rightarrow> string \<Rightarrow> text_file \<Rightarrow> text_file \<times> gitignore_note list" where
  "update_gitignore can_read can_append project_name_sanitized file =
     (case file of
        Regular content \<Rightarrow>
          if \<not> can_read then (file, [Could_not_update])
          else if ignore_entry project_name_sanitized \<notin> set (stripped_lines content)
          then (if can_append
                then (Regular (content @ ignore_block project_name_sanitized),
                      [Adding (ignore_entry project_name_sanitized)])
                else (file, [Adding (ignore_entry project_name_sanitized), Could_not_update]))
          else (file, [])
      | Absent \<Rightarrow>
          if can_append
          then (Regular (ignore_block project_name_sanitized),
                [Adding (ignore_entry project_name_sanitized)])
          else (file, [Adding (ignore_entry project_name_sanitized), Could_not_update]))"

text \<open>How many lines of the file are the given line, once stripped.\<close>

definition occurrences :: "string \<Rightarrow> text_file \<Rightarrow> nat" where
  "occurrences l file =
     (case file of Absent \<Rightarrow> 0 | Regular content \<Rightarrow> count_list (stripped_lines content) l)"

section \<open>The rendered inputs.conf\<close>

definition DEFAULT_CONTAINER_BASE :: string where
  "DEFAULT_CONTAINER_BASE = ''uf''"

text \<open>\<open>container_name_base\<close> is the environment variable \<open>CONTAINER_NAME_BASE\<close> or the default.\<close>

definition container_name :: "string \<Rightarrow> string \<Rightarrow> string" where
  "container_name project_name_sanitized container_name_base =
     project_name_sanitized @ ''-'' @ container_name_base"

definition log_file_name :: "string \<Rightarrow> string" where
  "log_file_name project_name_sanitized = project_name_sanitized @ ''_test.log''"

text \<open>A text given line by line; every line of the template ends with a line feed.\<close>

definition unlines :: "string list \<Rightarrow> string" where
  "unlines ls = concat (map (\<lambda>l. l @ [LF]) ls)"

text \<open>The f-string \<open>inputs_conf_content\<close>; both \<open>host\<close> lines end with a space.\<close>

definition inputs_conf_content :: "string \<Rightarrow> string \<Rightarrow> string" where
  "inputs_conf_content project_name_sanitized container_name_base =
     unlines
       [''# inputs.conf - Instance: '' @ project_name_sanitized,
        ''# Hostname reported to Splunk will be the container name: ''
          @ container_name project_name_sanitized container_name_base,
        ''[monitor:///opt/logs/'' @ log_file_name project_name_sanitized @ '']'',
        ''disabled = false'',
        ''index = main'',
        ''sourcetype = _json'',
        ''host = '' @ container_name project_name_sanitized container_name_base @ '' '',
        '''',
        ''[monitor:///opt/logs/*.log]'',
        ''# Generic catch-all for other logs placed in host_logs if needed'',
        ''disabled = true'',
        ''index = main'',
        ''sourcetype = _json'',
        ''host = '' @ container_name project_name_sanitized container_name_base @ '' '']"

subsection \<open>Reading a configuration text\<close>

text \<open>
  What a reader of the file finds in it, used to state what the rendered text sets: the
  text is read line by line, every line is stripped, a line \<open>[name]\<close> opens the stanza
  \<open>name\<close>, a line that starts with \<open>#\<close> is a comment, and a line \<open>key = value\<close> sets
  \<open>key\<close> in the open stanza to \<open>value\<close>, both stripped.
\<close>

definition is_header :: "string \<Rightarrow> bool" where
  "is_header l = (case l of [] \<Rightarrow> False | c # _ \<Rightarrow> c = CHR ''['' \<and> last l = CHR '']'')"

text \<open>The stripped lines of the stanza; the flag says that the stanza is open.\<close>

fun stanza_body :: "string \<Rightarrow> bool \<Rightarrow> string list \<Rightarrow> string list" where
  "stanza_body name inside [] = []"
| "stanza_body name inside (l # ls) =
     (if is_header (strip l) then stanza_body name (strip l = ''['' @ name @ '']'') ls
      else if inside then strip l # stanza_body name inside ls
      else stanza_body name inside ls)"

definition setting_value :: "string \<Rightarrow> string \<Rightarrow> string option" where
  "setting_value key l =
     (case l of
        [] \<Rightarrow> None
      | c # _ \<Rightarrow>
          if c \<noteq> CHR ''#'' \<and> CHR ''='' \<in> set l \<and> strip (takeWhile (\<lambda>x. x \<noteq> CHR ''='') l) = key
          then Some (strip (tl (dropWhile (\<lambda>x. x \<noteq> CHR ''='') l)))
          else None)"

text \<open>The values the text gives to \<open>key\<close> in the stanza \<open>name\<close>, in the order of the text.\<close>

definition conf_values :: "string \<Rightarrow> string \<Rightarrow> string \<Rightarrow> string list" where
  "conf_values content name key =
     List.map_filter (setting_value key) (stanza_body name False (text_lines [] content))"

section \<open>The preference file\<close>

text \<open>
  The values \<open>json.load\<close> can return. A number is kept as its text; a dict is the list of
  its items in insertion order, with distinct keys.
\<close>

datatype json =
    JNull
  | JBool bool
  | JNumber string
  | JString string
  | JArray "json list"
  | JObject "(string \<times> json) list"

text \<open>
  What is at the path of the preference file: nothing, something that cannot be opened or
  read (\<open>IOError\<close>), a file whose bytes are not UTF-8 (reading it raises
  \<open>UnicodeDecodeError\<close>), or a file with a text.
\<close>

datatype config_file = Missing | Unreadable | Undecodable | Text string

text \<open>
  The result of \<open>json.load\<close> on a text: a value, \<open>JSONDecodeError\<close>, or another exception
  by its name. \<open>json.load\<close> and \<open>json.dump\<close> are parameters of the two functions of the
  script, \<open>loads\<close> and \<open>dumps\<close>.
\<close>

datatype parse_result = Parsed json | JSONDecodeError | Other_exception string

datatype config_note = Could_not_parse | Could_not_save

definition load_setup_config ::
  "(string \<Rightarrow> parse_result) \<Rightarrow> config_file \<Rightarrow> config_note list \<times> json outcome" where
  "load_setup_config loads config_path =
     (case config_path of
        Missing \<Rightarrow> ([], Returns (JObject []))
      | Unreadable \<Rightarrow> ([Could_not_parse], Returns (JObject []))
      | Undecodable \<Rightarrow> ([], Raises ''UnicodeDecodeError'')
      | Text t \<Rightarrow>
          (case loads t of
             Parsed v \<Rightarrow> ([], Returns v)
           | JSONDecodeError \<Rightarrow> ([Could_not_parse], Returns (JObject []))
           | Other_exception e \<Rightarrow> ([], Raises e)))"



text \<open>
  \<open>setup_config.get(key, default)\<close> in \<open>main\<close>: a dict answers; any other value has no
  \<open>get\<close>, and the script stops with \<open>AttributeError\<close>.
\<close>

definition config_get :: "json \<Rightarrow> string \<Rightarrow> json \<Rightarrow> json outcome" where
  "config_get setup_config key fallback =
     (case setup_config of
        JObject items \<Rightarrow> Returns (case map_of items key of None \<Rightarrow> fallback | Some v \<Rightarrow> v)
      | _ \<Rightarrow> Raises ''AttributeError'')"


subsection \<open>The json module\<close>

text \<open>
  A model of \<open>json.dumps(value, indent=4)\<close> and of \<open>json.loads(text)\<close> of the interpreter,
  on texts and strings of 8-bit code points. Three things are left out: an escape
  \<open>\uXXXX\<close> above \<open>00ff\<close> has no character in the model and is answered as a malformed
  text; the conversion of a number's text to a number (and its limit on the number of
  digits); and the recursion limit of the interpreter, in whose place the scanner has a
  bound that grows with the text.
\<close>

definition dquote :: char where "dquote = CHR 0x22"
definition backslash :: char where "backslash = CHR 0x5C"


definition hex_value :: "char \<Rightarrow> nat option" where
  "hex_value c =
     (if 48 \<le> code c \<and> code c \<le> 57 then Some (code c - 48)
      else if 97 \<le> code c \<and> code c \<le> 102 then Some (code c - 87)
      else if 65 \<le> code c \<and> code c \<le> 70 then Some (code c - 55)
      else None)"







text \<open>The white space of JSON, skipped between tokens.\<close>

definition json_space :: "char \<Rightarrow> bool" where
  "json_space c = (c = CHR '' '' \<or> c = CHR 0x09 \<or> c = LF \<or> c = CR)"

definition skip_ws :: "string \<Rightarrow> string" where
  "skip_ws s = dropWhile json_space s"

text \<open>The character of \<open>\uXXXX\<close>, when the four digits are hexadecimal and the value is below 256.\<close>

definition hex4 :: "char \<Rightarrow> char \<Rightarrow> char \<Rightarrow> char \<Rightarrow> char option" where
  "hex4 a b c d =
     (case (hex_value a, hex_value b, hex_value c, hex_value d) of
        (Some w, Some x, Some y, Some z) \<Rightarrow>
          if w = 0 \<and> x = 0 then Some (char_of (16 * y + z)) else None
      | _ \<Rightarrow> None)"

definition simple_escape :: "char \<Rightarrow> char option" where
  "simple_escape e =
     (if e = dquote then Some dquote
      else if e = backslash then Some backslash
      else if e = CHR ''/'' then Some (CHR ''/'')
      else if e = CHR ''b'' then Some (CHR 0x08)
      else if e = CHR ''f'' then Some (CHR 0x0C)
      else if e = CHR ''n'' then Some LF
      else if e = CHR ''r'' then Some CR
      else if e = CHR ''t'' then Some (CHR 0x09)
      else None)"

text \<open>
  The string that starts after an opening quote, and the text after its closing quote.
  A control character inside the string is an error (\<open>strict\<close>).
\<close>

fun scanstring :: "string \<Rightarrow> (string \<times> string) option" where
  "scanstring [] = None"
| "scanstring (c # cs) =
     (if c = dquote then Some ([], cs)
      else if c = backslash then
        (case cs of
           [] \<Rightarrow> None
         | e # r \<Rightarrow>
             if e = CHR ''u'' then
               (case r of
                  a # b # x # y # r' \<Rightarrow>
                    (case hex4 a b x y of
                       None \<Rightarrow> None
                     | Some ch \<Rightarrow> map_option (\<lambda>(s, t). (ch # s, t)) (scanstring r'))
                | _ \<Rightarrow> None)
             else
               (case simple_escape e of
                  None \<Rightarrow> None
                | Some ch \<Rightarrow> map_option (\<lambda>(s, t). (ch # s, t)) (scanstring r)))
      else if code c < 32 then None
      else map_option (\<lambda>(s, t). (c # s, t)) (scanstring cs))"

text \<open>The longest number at the start of the text: \<open>-?(0|[1-9]\d*)(\.\d+)?([eE][-+]?\d+)?\<close>.\<close>

definition int_part :: "string \<Rightarrow> (string \<times> string) option" where
  "int_part s =
     (case s of
        [] \<Rightarrow> None
      | c # cs \<Rightarrow>
          if c = CHR ''0'' then Some ([c], cs)
          else if is_digit c then Some (c # takeWhile is_digit cs, dropWhile is_digit cs)
          else None)"

definition frac_part :: "string \<Rightarrow> string \<times> string" where
  "frac_part s =
     (case s of
        p # d # cs \<Rightarrow>
          if p = CHR ''.'' \<and> is_digit d
          then (p # d # takeWhile is_digit cs, dropWhile is_digit cs) else ([], s)
      | _ \<Rightarrow> ([], s))"

definition exp_part :: "string \<Rightarrow> string \<times> string" where
  "exp_part s =
     (case s of
        [] \<Rightarrow> ([], s)
      | e # cs \<Rightarrow>
          if e = CHR ''e'' \<or> e = CHR ''E'' then
            (case cs of
               [] \<Rightarrow> ([], s)
             | g # ds \<Rightarrow>
                 if (g = CHR ''+'' \<or> g = CHR ''-'') \<and> ds \<noteq> [] \<and> is_digit (hd ds)
                 then (e # g # takeWhile is_digit ds, dropWhile is_digit ds)
                 else if is_digit g then (e # takeWhile is_digit cs, dropWhile is_digit cs)
                 else ([], s))
          else ([], s))"

definition match_number :: "string \<Rightarrow> (string \<times> string) option" where
  "match_number s =
     (let (sign, r) = (case s of [] \<Rightarrow> ([], s) | c # cs \<Rightarrow> if c = CHR ''-'' then ([c], cs) else ([], s))
      in case int_part r of
           None \<Rightarrow> None
         | Some (i, r1) \<Rightarrow>
             (let (f, r2) = frac_part r1; (e, r3) = exp_part r2
              in Some (sign @ i @ f @ e, r3)))"

text \<open>\<open>d[key] = value\<close> on the list of items: a key already there keeps its place.\<close>

fun dict_put :: "(string \<times> json) list \<Rightarrow> string \<Rightarrow> json \<Rightarrow> (string \<times> json) list" where
  "dict_put [] key v = [(key, v)]"
| "dict_put ((k, w) # items) key v =
     (if k = key then (k, v) # items else (k, w) # dict_put items key v)"

text \<open>
  The scanner: a value at the start of the text and the text after it. The first argument
  bounds the number of nested calls; \<open>json_loads\<close> starts with one more than the length
  of the text, and a scan that uses the bound up ends as \<open>RecursionError\<close>.
\<close>

datatype 'a scan = Scanned 'a string | Malformed | Too_deep

text \<open>The constants, each recognised by its first character and then its whole word.\<close>

definition scan_literal :: "string \<Rightarrow> json scan option" where
  "scan_literal s =
     (if prefix ''null'' s then Some (Scanned JNull (drop 4 s))
      else if prefix ''true'' s then Some (Scanned (JBool True) (drop 4 s))
      else if prefix ''false'' s then Some (Scanned (JBool False) (drop 5 s))
      else if prefix ''NaN'' s then Some (Scanned (JNumber ''NaN'') (drop 3 s))
      else if prefix ''Infinity'' s then Some (Scanned (JNumber ''Infinity'') (drop 8 s))
      else if prefix ''-Infinity'' s then Some (Scanned (JNumber ''-Infinity'') (drop 9 s))
      else None)"

fun scan_once :: "nat \<Rightarrow> string \<Rightarrow> json scan"
  and parse_object :: "nat \<Rightarrow> (string \<times> json) list \<Rightarrow> string \<Rightarrow> json scan"
  and parse_array :: "nat \<Rightarrow> json list \<Rightarrow> string \<Rightarrow> json scan" where
  "scan_once 0 s = Too_deep"
| "scan_once (Suc n) s =
     (case s of
        [] \<Rightarrow> Malformed
      | c # cs \<Rightarrow>
          if c = dquote then
            (case scanstring cs of None \<Rightarrow> Malformed | Some (v, r) \<Rightarrow> Scanned (JString v) r)
          else if c = CHR ''{'' then
            (case skip_ws cs of
               [] \<Rightarrow> Malformed
             | d # r \<Rightarrow> if d = CHR ''}'' then Scanned (JObject []) r
                        else parse_object n [] (d # r))
          else if c = CHR ''['' then
            (case skip_ws cs of
               [] \<Rightarrow> Malformed
             | d # r \<Rightarrow> if d = CHR '']'' then Scanned (JArray []) r
                        else parse_array n [] (d # r))
          else
            (case scan_literal s of
               Some found \<Rightarrow> found
             | None \<Rightarrow>
                 (case match_number s of
                    None \<Rightarrow> Malformed
                  | Some (t, r) \<Rightarrow> Scanned (JNumber t) r)))"
| "parse_object 0 items s = Too_deep"
| "parse_object (Suc n) items s =
     (case s of
        [] \<Rightarrow> Malformed
      | c # cs \<Rightarrow>
          if c \<noteq> dquote then Malformed
          else
            (case scanstring cs of
               None \<Rightarrow> Malformed
             | Some (key, r) \<Rightarrow>
                 (case skip_ws r of
                    [] \<Rightarrow> Malformed
                  | colon # r1 \<Rightarrow>
                      if colon \<noteq> CHR '':'' then Malformed
                      else
                        (case scan_once n (skip_ws r1) of
                           Malformed \<Rightarrow> Malformed
                         | Too_deep \<Rightarrow> Too_deep
                         | Scanned v r2 \<Rightarrow>
                             (case skip_ws r2 of
                                [] \<Rightarrow> Malformed
                              | d # r3 \<Rightarrow>
                                  if d = CHR ''}'' then Scanned (JObject (dict_put items key v)) r3
                                  else if d = CHR '','' then parse_object n (dict_put items key v) (skip_ws r3)
                                  else Malformed)))))"
| "parse_array 0 xs s = Too_deep"
| "parse_array (Suc n) xs s =
     (case scan_once n s of
        Malformed \<Rightarrow> Malformed
      | Too_deep \<Rightarrow> Too_deep
      | Scanned v r \<Rightarrow>
          (case skip_ws r of
             [] \<Rightarrow> Malformed
           | d # r1 \<Rightarrow>
               if d = CHR '']'' then Scanned (JArray (xs @ [v])) r1
               else if d = CHR '','' then parse_array n (xs @ [v]) (skip_ws r1)
               else Malformed))"

definition json_loads :: "string \<Rightarrow> parse_result" where
  "json_loads t =
     (case scan_once (Suc (length t)) (skip_ws t) of
        Malformed \<Rightarrow> JSONDecodeError
      | Too_deep \<Rightarrow> Other_exception ''RecursionError''
      | Scanned v r \<Rightarrow> if skip_ws r = [] then Parsed v else JSONDecodeError)"



section \<open>Properties of the sanitizer\<close>

lemma safe_not_space: "safe_char c \<Longrightarrow> \<not> is_space c"
  by (auto simp: safe_char_def is_space_def code_def)

lemma safe_lower: "safe_char c \<Longrightarrow> lower_char c = c"
  by (auto simp: safe_char_def lower_char_def code_def)

lemma sub_spaces_id: "list_all (\<lambda>c. \<not> is_space c) s \<Longrightarrow> sub_spaces s = s"
  by (induction s) auto

lemma strip_where_prefix: "\<exists>zs. dropWhile p s = strip_where p s @ zs"
proof -
  let ?t = "dropWhile p s"
  have "rev ?t = takeWhile p (rev ?t) @ dropWhile p (rev ?t)" by simp
  then have "rev (rev ?t) = rev (takeWhile p (rev ?t) @ dropWhile p (rev ?t))" by simp
  then have "?t = rev (dropWhile p (rev ?t)) @ rev (takeWhile p (rev ?t))"
    by (simp only: rev_rev_ident rev_append)
  then show ?thesis unfolding strip_where_def by blast
qed

lemma strip_where_set: "set (strip_where p s) \<subseteq> set s"
proof -
  obtain zs where z: "dropWhile p s = strip_where p s @ zs"
    using strip_where_prefix by blast
  have "set (strip_where p s) \<subseteq> set (dropWhile p s)" by (simp add: z)
  also have "\<dots> \<subseteq> set s" by (auto dest: set_dropWhileD)
  finally show ?thesis .
qed

lemma strip_where_hd:
  assumes "strip_where p s \<noteq> []" shows "\<not> p (hd (strip_where p s))"
proof -
  obtain zs where z: "dropWhile p s = strip_where p s @ zs"
    using strip_where_prefix by blast
  with assms have ne: "dropWhile p s \<noteq> []" by auto
  have "hd (dropWhile p s) = hd (strip_where p s)" using z assms by (simp add: hd_append)
  moreover have "\<not> p (hd (dropWhile p s))" using ne by (rule hd_dropWhile)
  ultimately show ?thesis by simp
qed

lemma strip_where_last:
  assumes "strip_where p s \<noteq> []" shows "\<not> p (last (strip_where p s))"
proof -
  let ?u = "dropWhile p (rev (dropWhile p s))"
  have ne: "?u \<noteq> []" using assms by (simp add: strip_where_def)
  have "last (strip_where p s) = hd ?u" using ne by (simp add: strip_where_def last_rev)
  moreover have "\<not> p (hd ?u)" using ne by (rule hd_dropWhile)
  ultimately show ?thesis by simp
qed

lemma strip_where_id:
  assumes "s \<noteq> []" "\<not> p (hd s)" "\<not> p (last s)" shows "strip_where p s = s"
proof -
  have a: "dropWhile p s = s" using assms by (cases s) auto
  have "rev s \<noteq> []" "\<not> p (hd (rev s))" using assms by (simp_all add: hd_rev)
  then have b: "dropWhile p (rev s) = rev s" by (cases "rev s") auto
  show ?thesis by (simp add: strip_where_def a b)
qed

lemma stripped_safe: "list_all safe_char (sanitize_stripped s)"
  using strip_where_set [of dash_or_underscore "sub_unsafe (sub_spaces (lower s))"]
  by (auto simp: sanitize_stripped_def sub_unsafe_def list_all_iff)

lemma prefixed_eq:
  "sanitize_prefixed s = (if sanitize_stripped s = [] then ''proj'' else sanitize_stripped s)"
  using strip_where_hd [of dash_or_underscore "sub_unsafe (sub_spaces (lower s))"]
  by (auto simp: sanitize_prefixed_def sanitize_stripped_def Let_def dash_or_underscore_def)

lemma prefixed_nonempty: "sanitize_prefixed s \<noteq> []"
  by (simp add: prefixed_eq)

lemma sanitize_eq: "sanitize_for_docker s = sanitize_prefixed s"
  by (simp add: sanitize_for_docker_def Let_def prefixed_nonempty)

lemma stripped_fixed:
  assumes "t \<noteq> []" "list_all safe_char t" "\<not> dash_or_underscore (hd t)" "\<not> dash_or_underscore (last t)"
  shows "sanitize_stripped t = t"
proof -
  have l: "lower t = t" using assms(2) by (simp add: lower_def list_all_iff safe_lower map_idI)
  have "list_all (\<lambda>c. \<not> is_space c) t" using assms(2) by (auto simp: list_all_iff safe_not_space)
  then have w: "sub_spaces t = t" by (rule sub_spaces_id)
  have u: "sub_unsafe t = t" using assms(2) by (simp add: sub_unsafe_def list_all_iff)
  show ?thesis using assms by (simp add: sanitize_stripped_def l w u strip_where_id)
qed

lemma stripped_idem: "sanitize_stripped s \<noteq> [] \<Longrightarrow> sanitize_stripped (sanitize_stripped s) = sanitize_stripped s"
  apply (rule stripped_fixed)
     apply assumption
    apply (rule stripped_safe)
   apply (simp add: sanitize_stripped_def strip_where_hd)
  apply (simp add: sanitize_stripped_def strip_where_last)
  done

lemma proj_fixed: "sanitize_stripped ''proj'' = ''proj''"
  by code_simp

lemma stripped_hd_alnum:
  assumes "sanitize_stripped s \<noteq> []" shows "alnum_char (hd (sanitize_stripped s))"
proof -
  have "safe_char (hd (sanitize_stripped s))"
    using assms stripped_safe [of s] by (cases "sanitize_stripped s") simp_all
  moreover have "\<not> dash_or_underscore (hd (sanitize_stripped s))"
    using assms by (simp add: sanitize_stripped_def strip_where_hd)
  ultimately show ?thesis
    by (auto simp: safe_char_def alnum_char_def dash_or_underscore_def)
qed

lemma collapse_run: "spec_collapse True cs = spec_collapse False (dropWhile is_space cs)"
  by (induction cs) simp_all

lemma sub_spaces_collapse: "sub_spaces s = spec_collapse False s"
  by (induction s rule: sub_spaces.induct) (simp_all add: collapse_run)

lemma trim_end_Cons:
  "spec_trim_end p (c # cs) = (if spec_trim_end p cs = [] \<and> p c then [] else c # spec_trim_end p cs)"
  by (simp add: spec_trim_end_def)

lemma trim_end_rev: "spec_trim_end p s = rev (dropWhile p (rev s))"
proof (induction s)
  case Nil
  show ?case by (simp add: spec_trim_end_def)
next
  case (Cons c cs)
  show ?case
  proof (cases "dropWhile p (rev cs) = []")
    case True
    then show ?thesis using Cons by (simp add: trim_end_Cons dropWhile_append)
  next
    case False
    then have "\<not> (\<forall>x\<in>set (rev cs). p x)" by simp
    then show ?thesis using Cons False by (auto simp: trim_end_Cons dropWhile_append)
  qed
qed

lemma spec_trim_strip: "spec_trim p s = strip_where p s"
  by (simp add: spec_trim_def strip_where_def trim_end_rev)

lemma spec_sanitize_eq: "spec_sanitize s = sanitize_for_docker s"
  by (cases "sanitize_stripped s")
     (simp_all add: spec_sanitize_def sanitize_for_docker_def sanitize_prefixed_def
        sanitize_stripped_def spec_trim_strip sub_spaces_collapse sub_unsafe_def lower_def
        dash_or_underscore_def Let_def)

text \<open>
  Claim C1. The sanitizer is idempotent, and its result matches \<open>^[a-z0-9_-]+$\<close>: for every
  input \<open>s\<close>, sanitizing the result again gives the same result, and the result is a
  non-empty string of characters of \<open>[a-z0-9_-]\<close>.
\<close>

theorem sanitize_idempotent_safe:
  "sanitize_for_docker (sanitize_for_docker s) = sanitize_for_docker s
   \<and> matches_safe (sanitize_for_docker s)"
proof (cases "sanitize_stripped s = []")
  case True
  then have r: "sanitize_for_docker s = ''proj''" by (simp add: sanitize_eq prefixed_eq)
  have "sanitize_for_docker ''proj'' = ''proj''" by (simp add: sanitize_eq prefixed_eq proj_fixed)
  moreover have "list_all safe_char ''proj''" by code_simp
  ultimately show ?thesis by (simp add: r matches_safe_def)
next
  case False
  then have r: "sanitize_for_docker s = sanitize_stripped s" by (simp add: sanitize_eq prefixed_eq)
  have "sanitize_for_docker (sanitize_stripped s) = sanitize_stripped s"
    using False by (simp add: sanitize_eq prefixed_eq stripped_idem)
  then show ?thesis using False by (simp add: r stripped_safe matches_safe_def)
qed

text \<open>
  Claim C2. The sanitizer is total and never returns the empty string: for every input,
  also the empty one and one with no character of \<open>[a-z0-9_-]\<close>, the result has positive
  length, and it is the result of the pipeline of the specification (lower-case, collapse
  white space runs to one underscore, strip the characters outside the class, trim \<open>_\<close> and
  \<open>-\<close> at both ends, prefix \<open>proj\<close>, fall back to \<open>default_proj\<close>).
\<close>

theorem sanitize_total_nonempty:
  "0 < length (sanitize_for_docker s) \<and> sanitize_for_docker s = spec_sanitize s"
  by (simp add: spec_sanitize_eq sanitize_eq prefixed_nonempty)

text \<open>
  Claim C10, as stated, says that the sanitizer never returns the literal \<open>default_proj\<close>.
  It does, when the input itself sanitizes to that word.
\<close>

theorem sanitize_default_proj_counterexample:
  "sanitize_for_docker ''default_proj'' = ''default_proj''"
  by code_simp

text \<open>
  Claim C10, amended. The fallback branch is never taken: for every input the value of
  \<open>name\<close> just before the \<open>return\<close> is non-empty and is what is returned, and it begins
  with a character of \<open>[a-z0-9]\<close>; the result is \<open>default_proj\<close> exactly when the input,
  lower-cased, collapsed, stripped and trimmed, is that word.
\<close>

theorem sanitize_fallback_unreachable:
  "sanitize_prefixed s \<noteq> []
   \<and> sanitize_for_docker s = sanitize_prefixed s
   \<and> alnum_char (hd (sanitize_for_docker s))
   \<and> (sanitize_for_docker s = ''default_proj'' \<longleftrightarrow> sanitize_stripped s = ''default_proj'')"
proof (cases "sanitize_stripped s = []")
  case True
  have "alnum_char (CHR ''p'')" by code_simp
  then show ?thesis using True by (simp add: sanitize_eq prefixed_eq)
next
  case False
  then show ?thesis by (simp add: sanitize_eq prefixed_eq stripped_hd_alnum)
qed

section \<open>Properties of the prompt loops\<close>

lemma host_round_value:
  "fst (host_round last_ip line) =
     (if host_candidate last_ip line = [] \<or> CHR '' '' \<in> set (host_candidate last_ip line)
         \<or> CHR ''/'' \<in> set (host_candidate last_ip line)
      then [] else host_candidate last_ip line)"
  by (simp add: host_round_def Let_def)

lemma get_indexer_ip_step:
  "snd (get_indexer_ip last_ip (line # lines)) =
     (if fst (host_round last_ip line) \<noteq> [] then Some (fst (host_round last_ip line), lines)
      else snd (get_indexer_ip last_ip lines))"
  by (simp add: Let_def split: prod.splits)

text \<open>
  Claim C4, as stated, says that a candidate host with any white space character in it is
  refused. A tab inside the host is white space, and the host is accepted: the loop ends at
  once with it.
\<close>

theorem host_tab_counterexample:
  "list_ex is_space [CHR ''a'', CHR 0x09, CHR ''b'']
   \<and> snd (get_indexer_ip [] [[CHR ''a'', CHR 0x09, CHR ''b'']])
       = Some ([CHR ''a'', CHR 0x09, CHR ''b''], [])"
  by code_simp

text \<open>
  Claim C4, amended. The host check refuses every candidate (the stripped line, or the saved
  host when the line is blank) that is empty or contains a space character or \<open>/\<close>, and asks
  again with the next line; every other candidate is accepted and ends the loop.
\<close>

theorem host_accepts_exactly:
  "snd (get_indexer_ip last_ip (line # lines)) =
     (if host_candidate last_ip line = [] \<or> CHR '' '' \<in> set (host_candidate last_ip line)
         \<or> CHR ''/'' \<in> set (host_candidate last_ip line)
      then snd (get_indexer_ip last_ip lines)
      else Some (host_candidate last_ip line, lines))"
  by (simp only: get_indexer_ip_step host_round_value) simp

lemma port_round_value:
  "fst (port_round to_int last_port line) =
     (if in_port_range (to_int (port_candidate last_port line))
      then port_candidate last_port line else [])"
  by (simp add: port_round_def in_port_range_def Let_def split: option.splits)

lemma get_indexer_port_step:
  "snd (get_indexer_port to_int last_port (line # lines)) =
     (if fst (port_round to_int last_port line) \<noteq> []
      then Some (fst (port_round to_int last_port line), lines)
      else snd (get_indexer_port to_int last_port lines))"
  by (simp add: Let_def split: prod.splits)

lemma py_int_empty: "py_int [] = None"
  by code_simp

text \<open>
  Claim C3. Port validation accepts a candidate (the stripped line, or the saved port when
  the line is blank) exactly when \<open>int\<close> parses it and the value is in 1 to 65535: then the
  loop ends with the candidate; in every other case (not a number, zero, negative, above
  65535) the loop asks again with the next line. That \<open>int\<close> rejects the empty string is
  the one fact about the interpreter that is used.
\<close>

theorem port_accepts_exactly_range:
  assumes "to_int [] = None"
  shows "snd (get_indexer_port to_int last_port (line # lines)) =
     (if in_port_range (to_int (port_candidate last_port line))
      then Some (port_candidate last_port line, lines)
      else snd (get_indexer_port to_int last_port lines))"
proof (cases "port_candidate last_port line = []")
  case True
  then have "\<not> in_port_range (to_int (port_candidate last_port line))"
    using assms by (simp add: in_port_range_def)
  then show ?thesis by (simp only: get_indexer_port_step port_round_value) simp
next
  case False
  then show ?thesis by (simp only: get_indexer_port_step port_round_value) simp
qed

theorem port_accepts_exactly_range_witness:
  "py_int [] = None
   \<and> snd (get_indexer_port py_int ''9997'' [''99999'', ''abc'', ''0'', ''-1'', '''', ''next''])
       = Some (''9997'', [''next''])"
proof -
  have h: "py_int [] = None" by (rule py_int_empty)
  have r1: "\<not> in_port_range (py_int (port_candidate ''9997'' ''99999''))" by code_simp
  have r2: "\<not> in_port_range (py_int (port_candidate ''9997'' ''abc''))" by code_simp
  have r3: "\<not> in_port_range (py_int (port_candidate ''9997'' ''0''))" by code_simp
  have r4: "\<not> in_port_range (py_int (port_candidate ''9997'' ''-1''))" by code_simp
  have r5: "in_port_range (py_int (port_candidate ''9997'' ''''))" by code_simp
  have c5: "port_candidate ''9997'' '''' = ''9997''" by code_simp
  show ?thesis
    using h r1 r2 r3 r4 r5 c5 by (simp add: port_accepts_exactly_range [of py_int, OF h] del: get_indexer_port.simps)
qed

text \<open>The scenario of the specification: port 9997 is accepted, 99999 and abc are not.\<close>

lemma port_scenario:
  "snd (get_indexer_port py_int [] [''9997'', ''rest'']) = Some (''9997'', [''rest''])"
  "fst (port_round py_int [] ''99999'') = []"
  "fst (port_round py_int [] ''abc'') = []"
  by code_simp+

section \<open>Properties of run\_command\<close>

lemma error_outputs_append: "error_outputs (xs @ ys) = error_outputs xs @ error_outputs ys"
  by (induction xs rule: error_outputs.induct) simp_all

lemma strip_Nil: "strip [] = []"
  by (simp add: strip_def strip_where_def)

text \<open>
  Claim C5, as stated, says that only stderr lines that match a benign substring are
  suppressed. The test is made on the whole of stderr: one matching line hides every
  line, here the line \<open>fatal: disk full\<close>, which matches nothing.
\<close>

theorem stderr_whole_counterexample:
  "\<not> mentions_benign ''fatal: disk full''
   \<and> error_outputs (fst (run_command [''docker'', ''compose'', ''up''] None False False
         (Completed 1 [] (''fatal: disk full'' @ [LF] @ ''Network not found'')))) = []"
  by code_simp

text \<open>
  Claim C5, amended. When the process completes and the call returns (exit code 0, or
  \<open>check=false\<close>), stderr is shown as a whole, stripped, exactly when it is not blank and its
  lower-cased text contains none of the five benign substrings; when one of them occurs
  anywhere in stderr, nothing of stderr is shown.
\<close>

theorem stderr_shown_unless_benign:
  assumes "returncode = 0 \<or> \<not> check"
  shows "error_outputs (fst (run_command command_list cwd check suppress_output
            (Completed returncode out err)))
         = (if strip err \<noteq> [] \<and> \<not> mentions_benign err then [strip err] else [])"
proof -
  have "err = [] \<Longrightarrow> strip err = []" by (simp add: strip_Nil)
  then show ?thesis
    using assms by (auto simp: run_command_def Let_def error_outputs_append)
qed

theorem stderr_shown_unless_benign_witness:
  "((1::int) = 0 \<or> \<not> False)
   \<and> error_outputs (fst (run_command [''docker'', ''info''] None False True
         (Completed 1 [] (''Cannot connect to the Docker daemon'' @ [LF]))))
       = [''Cannot connect to the Docker daemon'']"
proof -
  have h: "(1::int) = 0 \<or> \<not> False" by simp
  have s: "strip (''Cannot connect to the Docker daemon'' @ [LF]) = ''Cannot connect to the Docker daemon''"
    by code_simp
  have b: "\<not> mentions_benign (''Cannot connect to the Docker daemon'' @ [LF])" by code_simp
  show ?thesis
    using stderr_shown_unless_benign [OF h, of "[''docker'', ''info'']" None True "[]"
            "''Cannot connect to the Docker daemon'' @ [LF]"] s b
    by simp
qed

section \<open>Properties of the .gitignore update\<close>

lemma CR_neq_LF: "CR \<noteq> LF"
  by (simp add: CR_def LF_def)

lemma text_lines_plain:
  "CR \<noteq> c \<Longrightarrow> LF \<noteq> c \<Longrightarrow> text_lines cur (c # cs) = text_lines (c # cur) cs"
  by (cases cs) auto

lemma text_lines_CR_LF: "text_lines cur (CR # LF # cs) = rev cur # text_lines [] cs"
  by simp

lemma text_lines_LF: "text_lines cur (LF # cs) = rev cur # text_lines [] cs"
  using CR_neq_LF by (cases cs) auto

lemma text_lines_run:
  "CR \<notin> set s \<Longrightarrow> LF \<notin> set s \<Longrightarrow> text_lines cur (s @ rest) = text_lines (rev s @ cur) rest"
  by (induction s arbitrary: cur) (simp_all add: text_lines_plain)

lemma kept_Cons: "kept (l # ls) = (if strip l = [] then kept ls else strip l # kept ls)"
  by (simp add: kept_def)

lemma kept_Nil: "kept [] = []"
  by (simp add: kept_def)

lemma kept_lines_append:
  "kept (text_lines cur (content @ LF # rest)) = kept (text_lines cur content) @ kept (text_lines [] rest)"
proof (induction cur content rule: text_lines.induct)
  case (1 cur)
  then show ?case by (simp add: text_lines_LF kept_Cons kept_Nil strip_Nil)
next
  case (2 cur c)
  consider "c = CR" | "c = LF" | "CR \<noteq> c" "LF \<noteq> c" by auto
  then show ?case
  proof cases
    case 1
    then show ?thesis by (simp add: kept_Cons kept_Nil)
  next
    case 2
    then show ?thesis using CR_neq_LF by (simp add: text_lines_LF kept_Cons kept_Nil strip_Nil)
  next
    case 3
    then show ?thesis by (simp add: text_lines_plain text_lines_LF kept_Cons kept_Nil)
  qed
next
  case (3 cur c d cs)
  then show ?case by (simp add: kept_Cons)
qed

lemma safe_no_break: "list_all safe_char n \<Longrightarrow> CR \<notin> set n \<and> LF \<notin> set n"
  by (auto simp: list_all_iff safe_char_def CR_def LF_def code_def)

lemma strip_ends: "s \<noteq> [] \<Longrightarrow> \<not> is_space (hd s) \<Longrightarrow> \<not> is_space (last s) \<Longrightarrow> strip s = s"
  by (simp add: strip_def strip_where_id)

lemma strip_comment: "strip (ignore_comment n) = ignore_comment n"
  by (rule strip_ends) (simp_all add: ignore_comment_def apostrophe_def is_space_def code_def)

lemma strip_entry: "strip (ignore_entry n) = ignore_entry n"
  by (rule strip_ends) (simp_all add: ignore_entry_def is_space_def code_def)

lemma block_lines:
  assumes "list_all safe_char n"
  shows "kept (text_lines [] (ignore_comment n @ LF # ignore_entry n @ [LF]))
         = [ignore_comment n, ignore_entry n]"
proof -
  have nb: "CR \<notin> set n" "LF \<notin> set n" using assms safe_no_break by auto
  have c: "CR \<notin> set (ignore_comment n)" "LF \<notin> set (ignore_comment n)"
    using nb by (auto simp: ignore_comment_def apostrophe_def CR_def LF_def)
  have e: "CR \<notin> set (ignore_entry n)" "LF \<notin> set (ignore_entry n)"
    using nb by (auto simp: ignore_entry_def CR_def LF_def)
  have "text_lines [] (ignore_comment n @ LF # ignore_entry n @ [LF])
        = [ignore_comment n, ignore_entry n]"
    by (simp add: text_lines_run [OF c] text_lines_run [OF e] text_lines_LF)
  moreover have "ignore_comment n \<noteq> []" "ignore_entry n \<noteq> []"
    by (simp_all add: ignore_comment_def ignore_entry_def)
  ultimately show ?thesis by (simp add: kept_Cons kept_Nil strip_comment strip_entry)
qed

lemma stripped_lines_block:
  assumes "list_all safe_char n"
  shows "stripped_lines (content @ ignore_block n)
         = stripped_lines content @ [ignore_comment n, ignore_entry n]"
proof -
  have "ignore_block n = LF # (ignore_comment n @ LF # ignore_entry n @ [LF])"
    by (simp add: ignore_block_def)
  then show ?thesis
    using kept_lines_append [of "[]" content "ignore_comment n @ LF # ignore_entry n @ [LF]"]
      block_lines [OF assms]
    by (simp add: stripped_lines_def)
qed

lemma stripped_lines_Nil: "stripped_lines [] = []"
  by (simp add: stripped_lines_def kept_def)

lemma comment_not_entry: "ignore_comment n \<noteq> ignore_entry n"
  by (simp add: ignore_comment_def ignore_entry_def)

lemma update_twice:
  assumes "list_all safe_char n"
  shows "fst (update_gitignore r a n (fst (update_gitignore r a n file)))
         = fst (update_gitignore r a n file)"
  using stripped_lines_block [OF assms, of "[]"] stripped_lines_block [OF assms]
  by (cases "file") (auto simp: update_gitignore_def stripped_lines_Nil)

lemma update_occurrences:
  assumes "list_all safe_char n"
  shows "occurrences (ignore_entry n) (fst (update_gitignore True True n file))
         = max 1 (occurrences (ignore_entry n) file)"
proof (cases "file")
  case Absent
  then show ?thesis
    using stripped_lines_block [OF assms, of "[]"] comment_not_entry [of n]
    by (simp add: update_gitignore_def occurrences_def stripped_lines_Nil)
next
  case (Regular content)
  show ?thesis
  proof (cases "ignore_entry n \<in> set (stripped_lines content)")
    case True
    then have "0 < count_list (stripped_lines content) (ignore_entry n)"
      using count_list_0_iff [of "stripped_lines content" "ignore_entry n"] by auto
    then show ?thesis using True Regular by (simp add: update_gitignore_def occurrences_def)
  next
    case False
    then have "count_list (stripped_lines content) (ignore_entry n) = 0"
      by (simp add: count_list_0_iff)
    then show ?thesis
      using False Regular stripped_lines_block [OF assms, of content] comment_not_entry [of n]
      by (simp add: update_gitignore_def occurrences_def)
  qed
qed

lemma sanitize_safe: "list_all safe_char (sanitize_for_docker raw)"
  by (simp add: sanitize_eq prefixed_eq stripped_safe safe_char_def code_def)

text \<open>
  Claim C6, as stated, says that after two updates with the same entry the file holds the
  line exactly once, for every state of the file. The update never removes a line: a
  file that holds the line twice still holds it twice.
\<close>

theorem gitignore_duplicates_counterexample:
  "occurrences (ignore_entry (sanitize_for_docker ''web''))
     (fst (update_gitignore True True (sanitize_for_docker ''web'')
        (fst (update_gitignore True True (sanitize_for_docker ''web'')
           (Regular (''/web/'' @ [LF] @ ''/web/'' @ [LF])))))) = 2"
  by code_simp

text \<open>
  Claim C6, amended. The update is idempotent: for every state of the file and every
  instance name, a second update with the same name leaves the file as the first one left
  it, whether or not the file can be read or appended to. The entry is appended only when
  no stripped line of the file is the entry; when the file can be read and appended to,
  the file holds the line once afterwards if it did not hold it before, and as often as
  before otherwise.
\<close>

theorem gitignore_update_idempotent:
  "fst (update_gitignore can_read can_append (sanitize_for_docker raw)
          (fst (update_gitignore can_read can_append (sanitize_for_docker raw) file)))
     = fst (update_gitignore can_read can_append (sanitize_for_docker raw) file)
   \<and> occurrences (ignore_entry (sanitize_for_docker raw))
         (fst (update_gitignore True True (sanitize_for_docker raw)
            (fst (update_gitignore True True (sanitize_for_docker raw) file))))
       = max 1 (occurrences (ignore_entry (sanitize_for_docker raw)) file)"
  by (simp add: update_twice [OF sanitize_safe] update_occurrences [OF sanitize_safe])

section \<open>Properties of the rendered inputs.conf\<close>

lemma text_lines_unlines:
  "list_all (\<lambda>l. CR \<notin> set l \<and> LF \<notin> set l) ls \<Longrightarrow> text_lines [] (unlines ls) = ls"
proof (induction ls)
  case Nil
  show ?case by (simp add: unlines_def)
next
  case (Cons l ls)
  then have "text_lines [] (unlines ls) = ls" by simp
  moreover have "unlines (l # ls) = l @ LF # unlines ls" by (simp add: unlines_def)
  moreover have "text_lines [] (l @ LF # unlines ls) = text_lines (rev l) (LF # unlines ls)"
    using Cons.prems text_lines_run [of l "[]" "LF # unlines ls"] by simp
  ultimately show ?case by (simp add: text_lines_LF)
qed

lemma space_is_space: "is_space (CHR '' '')"
  by (simp add: is_space_def code_def)

lemma strip_leading_space: "strip (CHR '' '' # s) = strip s"
  by (simp add: strip_def strip_where_def space_is_space)

lemma strip_trailing_space: "strip (s @ '' '') = strip s"
proof (cases "\<forall>x\<in>set s. is_space x")
  case True
  then have a: "dropWhile is_space s = []" by simp
  have b: "dropWhile is_space (s @ '' '') = []" using True by (simp add: space_is_space)
  show ?thesis by (simp only: strip_def strip_where_def a b)
next
  case False
  then obtain x where "x \<in> set s" "\<not> is_space x" by blast
  then have "dropWhile is_space (s @ '' '') = dropWhile is_space s @ '' ''"
    by (rule dropWhile_append1)
  then show ?thesis by (simp add: strip_def strip_where_def space_is_space)
qed

lemma space_free_no_break:
  "list_all (\<lambda>c. \<not> is_space c) s \<Longrightarrow> CR \<notin> set s \<and> LF \<notin> set s"
  by (auto simp: list_all_iff is_space_def CR_def LF_def code_def)

lemma space_free_last: "list_all (\<lambda>c. \<not> is_space c) s \<Longrightarrow> s \<noteq> [] \<Longrightarrow> \<not> is_space (last s)"
  by (simp add: list_all_iff)

lemma space_free_hd: "list_all (\<lambda>c. \<not> is_space c) s \<Longrightarrow> s \<noteq> [] \<Longrightarrow> \<not> is_space (hd s)"
  by (simp add: list_all_iff)

lemma safe_space_free: "list_all safe_char n \<Longrightarrow> list_all (\<lambda>c. \<not> is_space c) n"
  by (auto simp: list_all_iff safe_not_space)

lemma container_space_free:
  assumes "list_all (\<lambda>c. \<not> is_space c) n" "list_all (\<lambda>c. \<not> is_space c) base"
  shows "list_all (\<lambda>c. \<not> is_space c) (container_name n base)"
  using assms by (simp add: container_name_def is_space_def code_def)

lemma strip_space_free: "list_all (\<lambda>c. \<not> is_space c) s \<Longrightarrow> strip s = s"
  by (cases "s = []") (simp_all add: strip_Nil strip_ends space_free_hd space_free_last)

lemma host_line_value:
  assumes "list_all (\<lambda>c. \<not> is_space c) cn" "cn \<noteq> []"
  shows "setting_value ''host'' (strip (''host = '' @ cn @ '' '')) = Some cn"
proof -
  have "strip (''host = '' @ cn @ '' '') = strip (''host = '' @ cn)"
    using strip_trailing_space [of "''host = '' @ cn"] by simp
  also have "\<dots> = ''host = '' @ cn"
  proof (rule strip_ends)
    show "''host = '' @ cn \<noteq> []" by simp
    show "\<not> is_space (hd (''host = '' @ cn))" by (simp add: is_space_def code_def)
    show "\<not> is_space (last (''host = '' @ cn))" using assms by (simp add: space_free_last)
  qed
  finally have s: "strip (''host = '' @ cn @ '' '') = ''host = '' @ cn" .
  have k: "strip ''host '' = ''host''" by code_simp
  show ?thesis
    unfolding s using assms
    by (simp add: setting_value_def k strip_leading_space strip_space_free)
qed

lemma other_line_values:
  "setting_value ''host'' (strip ''disabled = false'') = None"
  "setting_value ''host'' (strip ''disabled = true'') = None"
  "setting_value ''host'' (strip ''index = main'') = None"
  "setting_value ''host'' (strip ''sourcetype = _json'') = None"
  "setting_value ''host'' (strip '''') = None"
  "setting_value ''host'' (strip ''# Generic catch-all for other logs placed in host_logs if needed'') = None"
  by code_simp+

lemma plain_lines_no_header:
  "\<not> is_header (strip ''disabled = false'')"
  "\<not> is_header (strip ''disabled = true'')"
  "\<not> is_header (strip ''index = main'')"
  "\<not> is_header (strip ''sourcetype = _json'')"
  "\<not> is_header (strip '''')"
  "\<not> is_header (strip ''# Generic catch-all for other logs placed in host_logs if needed'')"
  by code_simp+

lemma catch_all_header:
  "strip ''[monitor:///opt/logs/*.log]'' = ''[monitor:///opt/logs/*.log]''"
  "is_header ''[monitor:///opt/logs/*.log]''"
  by code_simp+

lemma strip_keeps_hd:
  assumes "s \<noteq> []" "\<not> is_space (hd s)"
  shows "strip s \<noteq> [] \<and> hd (strip s) = hd s"
proof -
  have d: "dropWhile is_space s = s" using assms by (cases s) simp_all
  have "rev s = takeWhile is_space (rev s) @ dropWhile is_space (rev s)" by simp
  then have "s = rev (dropWhile is_space (rev s)) @ rev (takeWhile is_space (rev s))"
    by (metis rev_append rev_rev_ident)
  then have p: "s = strip s @ rev (takeWhile is_space (rev s))"
    by (simp add: strip_def strip_where_def d)
  have n: "strip s \<noteq> []"
  proof
    assume e: "strip s = []"
    then have "s = rev (takeWhile is_space (rev s))" using p by simp
    then have "set s = set (takeWhile is_space (rev s))" by (metis set_rev)
    then have "\<forall>x\<in>set s. is_space x" by (metis set_takeWhileD)
    then show False using assms by (cases s) simp_all
  qed
  then have "hd s = hd (strip s)" using p by (metis hd_append2)
  then show ?thesis using n by simp
qed

lemma comment_line_no_header:
  assumes "hd s = CHR ''#''" "s \<noteq> []"
  shows "\<not> is_header (strip s)"
proof -
  have "\<not> is_space (hd s)" using assms by (simp add: is_space_def code_def)
  then have "strip s \<noteq> [] \<and> hd (strip s) = CHR ''#''"
    using strip_keeps_hd [of s] assms by simp
  then show ?thesis by (cases "strip s") (simp_all add: is_header_def)
qed

lemma monitor_header:
  assumes "list_all (\<lambda>c. \<not> is_space c) lf"
  shows "strip (''[monitor:///opt/logs/'' @ lf @ '']'') = ''['' @ (''monitor:///opt/logs/'' @ lf) @ '']''"
    and "is_header (''['' @ (''monitor:///opt/logs/'' @ lf) @ '']'')"
proof -
  show "strip (''[monitor:///opt/logs/'' @ lf @ '']'') = ''['' @ (''monitor:///opt/logs/'' @ lf) @ '']''"
    using strip_ends [of "''[monitor:///opt/logs/'' @ lf @ '']''"]
    by (simp add: is_space_def code_def)
  show "is_header (''['' @ (''monitor:///opt/logs/'' @ lf) @ '']'')"
    by (simp add: is_header_def)
qed

lemma inputs_conf_hosts:
  assumes n: "list_all safe_char n" "n \<noteq> []"
    and b: "list_all (\<lambda>c. \<not> is_space c) base"
  shows "conf_values (inputs_conf_content n base) (''monitor:///opt/logs/'' @ log_file_name n) ''host''
           = [container_name n base]"
    and "conf_values (inputs_conf_content n base) ''monitor:///opt/logs/*.log'' ''host''
           = [container_name n base]"
proof -
  define cn where "cn = container_name n base"
  define lf where "lf = log_file_name n"
  define l1 where "l1 = ''# inputs.conf - Instance: '' @ n"
  define l2 where "l2 = ''# Hostname reported to Splunk will be the container name: '' @ cn"
  define l3 where "l3 = ''[monitor:///opt/logs/'' @ lf @ '']''"
  define l7 where "l7 = ''host = '' @ cn @ '' ''"
  define l8 :: string where "l8 = []"
  define l9 where "l9 = ''[monitor:///opt/logs/*.log]''"
  define h1 where "h1 = ''['' @ (''monitor:///opt/logs/'' @ lf) @ '']''"
  define ls where "ls = [l1, l2, l3, ''disabled = false'', ''index = main'', ''sourcetype = _json'',
     l7, l8, l9, ''# Generic catch-all for other logs placed in host_logs if needed'',
     ''disabled = true'', ''index = main'', ''sourcetype = _json'', l7]"
  have nsf: "list_all (\<lambda>c. \<not> is_space c) n" using n(1) by (rule safe_space_free)
  have cnsf: "list_all (\<lambda>c. \<not> is_space c) cn"
    unfolding cn_def using nsf b by (rule container_space_free)
  have cnne: "cn \<noteq> []" by (simp add: cn_def container_name_def)
  have lfsf: "list_all (\<lambda>c. \<not> is_space c) lf"
    using nsf by (simp add: lf_def log_file_name_def is_space_def code_def)
  have nbn: "CR \<notin> set n" "LF \<notin> set n" using space_free_no_break [OF nsf] by simp_all
  have nbc: "CR \<notin> set cn" "LF \<notin> set cn" using space_free_no_break [OF cnsf] by simp_all
  have nbl: "CR \<notin> set lf" "LF \<notin> set lf" using space_free_no_break [OF lfsf] by simp_all
  have "list_all (\<lambda>l. CR \<notin> set l \<and> LF \<notin> set l) ls"
    using nbn nbc nbl
    by (simp add: ls_def l1_def l2_def l3_def l7_def l8_def l9_def CR_def LF_def)
  then have lines: "text_lines [] (unlines ls) = ls" by (rule text_lines_unlines)
  have content: "inputs_conf_content n base = unlines ls"
    by (simp add: inputs_conf_content_def ls_def l1_def l2_def l3_def l7_def l8_def l9_def
          cn_def lf_def)
  have c1: "\<not> is_header (strip l1)" by (rule comment_line_no_header) (simp_all add: l1_def)
  have c2: "\<not> is_header (strip l2)" by (rule comment_line_no_header) (simp_all add: l2_def)
  have s3: "strip l3 = h1" "is_header h1"
    unfolding l3_def h1_def using monitor_header [OF lfsf] by simp_all
  have s9: "strip l9 = l9" "is_header l9" unfolding l9_def by (rule catch_all_header)+
  have c8: "\<not> is_header (strip l8)" "setting_value ''host'' (strip l8) = None"
    unfolding l8_def using plain_lines_no_header(5) other_line_values(5) by simp_all
  obtain c n' where nc: "n = c # n'" using n(2) by (cases n) auto
  then have "safe_char c" using n(1) by simp
  then have "c \<noteq> CHR ''*''" by (auto simp: safe_char_def code_def)
  then have diff: "h1 \<noteq> l9" by (simp add: h1_def l9_def lf_def log_file_name_def nc)
  have c7: "\<not> is_header (strip l7)"
  proof -
    have "strip l7 \<noteq> [] \<and> hd (strip l7) = hd l7"
      by (rule strip_keeps_hd) (simp_all add: l7_def is_space_def code_def)
    then show ?thesis by (cases "strip l7") (simp_all add: is_header_def l7_def)
  qed
  have v7: "setting_value ''host'' (strip l7) = Some cn"
    unfolding l7_def using cnsf cnne by (rule host_line_value)
  have body1: "stanza_body (''monitor:///opt/logs/'' @ lf) False ls
       = [strip ''disabled = false'', strip ''index = main'', strip ''sourcetype = _json'',
          strip l7, strip l8]"
    using c1 c2 s3 s9 c7 c8 diff plain_lines_no_header
    by (simp add: ls_def h1_def)
  have body2: "stanza_body ''monitor:///opt/logs/*.log'' False ls
       = [strip ''# Generic catch-all for other logs placed in host_logs if needed'',
          strip ''disabled = true'', strip ''index = main'', strip ''sourcetype = _json'',
          strip l7]"
    using c1 c2 s3 s9 c7 c8 diff plain_lines_no_header
    by (simp add: ls_def l9_def)
  show "conf_values (inputs_conf_content n base) (''monitor:///opt/logs/'' @ log_file_name n) ''host''
           = [container_name n base]"
    using body1 v7 c8 other_line_values
    by (simp add: conf_values_def content lines lf_def [symmetric] cn_def [symmetric])
  show "conf_values (inputs_conf_content n base) ''monitor:///opt/logs/*.log'' ''host''
           = [container_name n base]"
    using body2 v7 c8 other_line_values
    by (simp add: conf_values_def content lines cn_def [symmetric])
qed

lemma sanitize_nonempty: "sanitize_for_docker raw \<noteq> []"
  by (simp add: sanitize_eq prefixed_nonempty)

text \<open>
  Claim C9. For every instance name and every container name base without white space, the
  rendered inputs.conf gives \<open>host\<close> one value in the stanza of the instance's own log
  file and one value in the stanza of the disabled catch-all \<open>*.log\<close>, and both are the
  resource name, the sanitized instance name followed by \<open>-\<close> and the base; the resource
  name is not the bare sanitized name.
\<close>

theorem inputs_conf_host_is_resource_name:
  assumes "list_all (\<lambda>c. \<not> is_space c) container_name_base"
  shows "conf_values (inputs_conf_content (sanitize_for_docker raw) container_name_base)
           (''monitor:///opt/logs/'' @ log_file_name (sanitize_for_docker raw)) ''host''
         = [sanitize_for_docker raw @ ''-'' @ container_name_base]
       \<and> conf_values (inputs_conf_content (sanitize_for_docker raw) container_name_base)
           ''monitor:///opt/logs/*.log'' ''host''
         = [sanitize_for_docker raw @ ''-'' @ container_name_base]
       \<and> sanitize_for_docker raw @ ''-'' @ container_name_base \<noteq> sanitize_for_docker raw"
  using inputs_conf_hosts [OF sanitize_safe sanitize_nonempty assms, of raw]
  by (simp add: container_name_def)

theorem inputs_conf_host_is_resource_name_witness:
  "list_all (\<lambda>c. \<not> is_space c) DEFAULT_CONTAINER_BASE
   \<and> conf_values (inputs_conf_content (sanitize_for_docker ''Web App Logs!'') DEFAULT_CONTAINER_BASE)
        ''monitor:///opt/logs/web_app_logs_test.log'' ''host'' = [''web_app_logs-uf'']
   \<and> conf_values (inputs_conf_content (sanitize_for_docker ''Web App Logs!'') DEFAULT_CONTAINER_BASE)
        ''monitor:///opt/logs/*.log'' ''host'' = [''web_app_logs-uf'']"
proof -
  have h: "list_all (\<lambda>c. \<not> is_space c) DEFAULT_CONTAINER_BASE" by code_simp
  have s: "sanitize_for_docker ''Web App Logs!'' = ''web_app_logs''" by code_simp
  have b: "DEFAULT_CONTAINER_BASE = ''uf''" by (simp add: DEFAULT_CONTAINER_BASE_def)
  show ?thesis
    using h inputs_conf_host_is_resource_name [OF h, of "''Web App Logs!''"]
    by (simp add: s b log_file_name_def)
qed

section \<open>Properties of the preference file\<close>























text \<open>
  For a missing file, for a file that cannot be opened or read and for a text that is not
  JSON, the loader returns the empty mapping, with a warning in the last two cases.
\<close>

lemma load_defaults:
  "load_setup_config loads Missing = ([], Returns (JObject []))"
  "load_setup_config loads Unreadable = ([Could_not_parse], Returns (JObject []))"
  "loads t = JSONDecodeError \<Longrightarrow>
     load_setup_config loads (Text t) = ([Could_not_parse], Returns (JObject []))"
  by (simp_all add: load_setup_config_def)

text \<open>
  Claim C7 says that the loader returns the empty mapping, with a warning, on any corrupt
  content. The handler names \<open>JSONDecodeError\<close> and \<open>IOError\<close> only: for a file whose
  bytes are not UTF-8, the loader lets \<open>UnicodeDecodeError\<close> through, whatever \<open>json.load\<close>
  would do with a text, and the run fails.
\<close>

theorem load_undecodable_raises:
  "load_setup_config loads Undecodable = ([], Raises ''UnicodeDecodeError'')"
  by (simp add: load_setup_config_def)

text \<open>
  A text that is JSON but not an object is returned as it is, and the first
  \<open>setup_config.get\<close> of \<open>main\<close> then stops the script.
\<close>

lemma load_list_then_get:
  "load_setup_config json_loads (Text ''[]'') = ([], Returns (JArray []))"
  "config_get (JArray []) key fallback = Raises ''AttributeError''"
  by (simp_all add: load_setup_config_def json_loads_def skip_ws_def json_space_def dquote_def
        LF_def CR_def config_get_def)



end
